theory Spec2Isabelle
  imports Complex_Main
begin

section \<open>The ledger store\<close>

text \<open>
  The tables of \<^verbatim>\<open>supabase/full_setup.sql\<close> with the column that
  \<^verbatim>\<open>supabase/photo_proof_setup.sql\<close> adds. A table is the list of its rows, in
  the order a sequential scan returns them. A row carries the columns that the stored
  procedures read or write. Identifiers (\<^verbatim>\<open>uuid\<close>) are natural numbers; a
  \<^verbatim>\<open>numeric\<close> is a rational number, on which the addition, subtraction and
  multiplication of PostgreSQL are exact; an \<^verbatim>\<open>integer\<close> counter is an \<open>int\<close>, its
  bound of \<open>2^31\<close> being out of reach of a count of rows or failures; a nullable column
  is an \<open>option\<close>. Of the table \<^verbatim>\<open>profiles\<close> the store keeps the identifiers: the
  columns \<^verbatim>\<open>from_user_id\<close> and \<^verbatim>\<open>to_user_id\<close> of a transaction reference it.
\<close>

type_synonym uuid = nat
type_synonym numeric = rat

datatype tx_status = pending | paid

record group_row =
  g_id :: uuid
  default_penalty_amount :: numeric

record member_row =
  group_id :: uuid
  user_id :: uuid
  current_balance :: numeric
  failure_count :: int

record transaction_row =
  tx_id :: uuid
  tx_group_id :: uuid
  from_user_id :: uuid
  to_user_id :: uuid
  amount :: numeric
  description :: "string option"
  status :: tx_status
  proof_photo_url :: "string option"
  settled_at :: "int option"

record db =
  profiles :: "uuid list"
  groups :: "group_row list"
  group_members :: "member_row list"
  transactions :: "transaction_row list"

text \<open>
  An exception raised inside a PL/pgSQL function aborts the statement and rolls every
  write of the call back: a failing call is \<open>Inl\<close> of the error and has no state.
\<close>

datatype error =
    NotAuthenticated
  | GroupNotFound
  | NumericFieldOverflow
  | NotNullViolation
  | ForeignKeyViolation

text \<open>The JSON object that both versions of \<^verbatim>\<open>log_failure\<close> return.\<close>

record lf_json =
  success :: bool
  transactions_created :: int
  total_debt :: "numeric option"

text \<open>The JSON object that \<^verbatim>\<open>settle_debt\<close> returns.\<close>

record settle_json =
  settle_success :: bool
  settle_error :: "string option"

subsection \<open>Values of type \<^verbatim>\<open>DECIMAL(10,2)\<close>\<close>

text \<open>
  Assigning a \<^verbatim>\<open>numeric\<close> to a variable declared \<^verbatim>\<open>DECIMAL(10,2)\<close>
  rounds it to two decimals, ties away from zero, and raises
  \<^verbatim>\<open>numeric field overflow\<close> when the rounded value has more than eight digits
  before the point.
\<close>

definition round2 :: "numeric \<Rightarrow> numeric" where
  "round2 x = (if 0 \<le> x then of_int \<lfloor>x * 100 + 1 / 2\<rfloor> / 100
               else - (of_int \<lfloor>- x * 100 + 1 / 2\<rfloor> / 100))"

definition dec10_2 :: "numeric \<Rightarrow> error + numeric" where
  "dec10_2 x = (if \<bar>round2 x\<bar> < 100000000 then Inr (round2 x) else Inl NumericFieldOverflow)"

subsection \<open>Queries\<close>

text \<open>\<^verbatim>\<open>SELECT default_penalty_amount INTO v_penalty FROM groups WHERE id = p_group_id\<close>:
  the first row found, NULL when there is none.\<close>

definition select_penalty :: "db \<Rightarrow> uuid \<Rightarrow> numeric option" where
  "select_penalty s p_group_id =
     (case filter (\<lambda>g. g_id g = p_group_id) (groups s) of
        [] \<Rightarrow> None
      | g # _ \<Rightarrow> Some (default_penalty_amount g))"

text \<open>\<^verbatim>\<open>SELECT user_id FROM group_members WHERE group_id = p_group_id AND user_id != v_user_id\<close>\<close>

definition other_members :: "db \<Rightarrow> uuid \<Rightarrow> uuid \<Rightarrow> uuid list" where
  "other_members s p_group_id v_user_id =
     map user_id (filter (\<lambda>m. group_id m = p_group_id \<and> user_id m \<noteq> v_user_id) (group_members s))"

text \<open>\<^verbatim>\<open>SELECT * INTO v_tx FROM transactions WHERE id = p_transaction_id\<close>\<close>

definition select_tx :: "db \<Rightarrow> uuid \<Rightarrow> transaction_row option" where
  "select_tx s p_transaction_id = find (\<lambda>t. tx_id t = p_transaction_id) (transactions s)"

text \<open>The column default \<^verbatim>\<open>uuid_generate_v4()\<close> of \<^verbatim>\<open>transactions.id\<close>
  yields an identifier that no row of the table has: here the successor of the largest.\<close>

definition fresh_id :: "transaction_row list \<Rightarrow> uuid" where
  "fresh_id txs = Suc (fold max (map tx_id txs) 0)"

text \<open>What the claims observe: the rows of a group, the sum of their balances, and the
  balance and the failure count of one membership (none when the user is no member).\<close>

definition members_of :: "db \<Rightarrow> uuid \<Rightarrow> member_row list" where
  "members_of s g = filter (\<lambda>m. group_id m = g) (group_members s)"

definition group_sum :: "db \<Rightarrow> uuid \<Rightarrow> numeric" where
  "group_sum s g = sum_list (map current_balance (members_of s g))"

definition membership :: "db \<Rightarrow> uuid \<Rightarrow> uuid \<Rightarrow> member_row option" where
  "membership s g u = find (\<lambda>m. group_id m = g \<and> user_id m = u) (group_members s)"

definition balance_of :: "db \<Rightarrow> uuid \<Rightarrow> uuid \<Rightarrow> numeric option" where
  "balance_of s g u = map_option current_balance (membership s g u)"

definition failures_of :: "db \<Rightarrow> uuid \<Rightarrow> uuid \<Rightarrow> int option" where
  "failures_of s g u = map_option failure_count (membership s g u)"

definition is_member :: "db \<Rightarrow> uuid \<Rightarrow> uuid \<Rightarrow> bool" where
  "is_member s g u = (membership s g u \<noteq> None)"

text \<open>The constraint \<^verbatim>\<open>UNIQUE(group_id, user_id)\<close> of \<^verbatim>\<open>group_members\<close>.\<close>

definition unique_members :: "db \<Rightarrow> bool" where
  "unique_members s = distinct (map (\<lambda>m. (group_id m, user_id m)) (group_members s))"

section \<open>Penalty distribution\<close>

subsection \<open>\<^verbatim>\<open>log_failure(UUID, TEXT, TEXT)\<close> of \<^verbatim>\<open>photo_proof_setup.sql\<close>\<close>

text \<open>The row that one pass of the loop inserts. \<^verbatim>\<open>settled_at\<close> is not listed by
  the \<^verbatim>\<open>INSERT\<close> and has no default.\<close>

definition new_debt ::
  "transaction_row list \<Rightarrow> uuid \<Rightarrow> uuid \<Rightarrow> uuid \<Rightarrow> numeric \<Rightarrow> string option \<Rightarrow> string option
   \<Rightarrow> transaction_row" where
  "new_debt txs p_group_id v_user_id member v_penalty descr url =
     \<lparr>tx_id = fresh_id txs, tx_group_id = p_group_id, from_user_id = v_user_id,
      to_user_id = member, amount = v_penalty, description = descr, status = pending,
      proof_photo_url = url, settled_at = None\<rparr>"

text \<open>The \<^verbatim>\<open>FOR v_member IN ... LOOP\<close>: the table, \<^verbatim>\<open>v_tx_count\<close> and
  \<^verbatim>\<open>v_total_debt\<close> are threaded through. The \<^verbatim>\<open>INSERT\<close> raises a foreign-key
  violation unless \<^verbatim>\<open>from_user_id\<close> and \<^verbatim>\<open>to_user_id\<close> are rows of
  \<^verbatim>\<open>profiles\<close> (\<open>profs\<close>); the group exists once the penalty has been read.
  \<^verbatim>\<open>v_total_debt\<close> is declared \<^verbatim>\<open>DECIMAL(10,2)\<close>, so each assignment to it may
  overflow.\<close>

fun insert_debts ::
  "uuid list \<Rightarrow> uuid \<Rightarrow> uuid \<Rightarrow> numeric \<Rightarrow> string option \<Rightarrow> string option \<Rightarrow> uuid list
   \<Rightarrow> transaction_row list \<times> int \<times> numeric
   \<Rightarrow> error + (transaction_row list \<times> int \<times> numeric)" where
  "insert_debts profs p_group_id v_user_id v_penalty descr url [] acc = Inr acc"
| "insert_debts profs p_group_id v_user_id v_penalty descr url (member # rest)
       (txs, v_tx_count, v_total_debt) =
     (if v_user_id \<in> set profs \<and> member \<in> set profs then
        (case dec10_2 (v_total_debt + v_penalty) of
           Inl e \<Rightarrow> Inl e
         | Inr debt \<Rightarrow>
             insert_debts profs p_group_id v_user_id v_penalty descr url rest
               (txs @ [new_debt txs p_group_id v_user_id member v_penalty descr url],
                v_tx_count + 1, debt))
      else Inl ForeignKeyViolation)"

definition bump_failure_count :: "uuid \<Rightarrow> uuid \<Rightarrow> member_row \<Rightarrow> member_row" where
  "bump_failure_count p_group_id v_user_id m =
     (if group_id m = p_group_id \<and> user_id m = v_user_id
      then m\<lparr>failure_count := failure_count m + 1\<rparr> else m)"

definition debit_member :: "uuid \<Rightarrow> uuid \<Rightarrow> numeric \<Rightarrow> member_row \<Rightarrow> member_row" where
  "debit_member p_group_id v_user_id x m =
     (if group_id m = p_group_id \<and> user_id m = v_user_id
      then m\<lparr>current_balance := current_balance m - x\<rparr> else m)"

definition credit_member :: "uuid \<Rightarrow> uuid \<Rightarrow> numeric \<Rightarrow> member_row \<Rightarrow> member_row" where
  "credit_member p_group_id v_user_id x m =
     (if group_id m = p_group_id \<and> user_id m = v_user_id
      then m\<lparr>current_balance := current_balance m + x\<rparr> else m)"

definition credit_others :: "uuid \<Rightarrow> uuid \<Rightarrow> numeric \<Rightarrow> member_row \<Rightarrow> member_row" where
  "credit_others p_group_id v_user_id x m =
     (if group_id m = p_group_id \<and> user_id m \<noteq> v_user_id
      then m\<lparr>current_balance := current_balance m + x\<rparr> else m)"

text \<open>\<open>auth_uid\<close> is the value of \<^verbatim>\<open>auth.uid()\<close>: the caller, NULL without a session.\<close>

definition log_failure ::
  "db \<Rightarrow> uuid option \<Rightarrow> uuid \<Rightarrow> string option \<Rightarrow> string option \<Rightarrow> error + (db \<times> lf_json)" where
  "log_failure s auth_uid p_group_id p_description p_proof_photo_url =
     (case auth_uid of
        None \<Rightarrow> Inl NotAuthenticated
      | Some v_user_id \<Rightarrow>
         (case select_penalty s p_group_id of
            None \<Rightarrow> Inl GroupNotFound
          | Some p \<Rightarrow>
             (case dec10_2 p of
                Inl e \<Rightarrow> Inl e
              | Inr v_penalty \<Rightarrow>
                 (case insert_debts (profiles s) p_group_id v_user_id v_penalty
                         (Some (case p_description of None \<Rightarrow> ''Logged failure'' | Some d \<Rightarrow> d))
                         p_proof_photo_url
                         (other_members s p_group_id v_user_id) (transactions s, 0, 0) of
                    Inl e \<Rightarrow> Inl e
                  | Inr (txs, v_tx_count, v_total_debt) \<Rightarrow>
                      Inr (s\<lparr>transactions := txs,
                              group_members :=
                                map (credit_others p_group_id v_user_id v_penalty)
                                  (map (debit_member p_group_id v_user_id v_total_debt)
                                    (map (bump_failure_count p_group_id v_user_id)
                                      (group_members s)))\<rparr>,
                           \<lparr>success = True, transactions_created = v_tx_count,
                            total_debt = Some v_total_debt\<rparr>)))))"

subsection \<open>\<^verbatim>\<open>log_failure(uuid, text)\<close> of \<^verbatim>\<open>full_setup.sql\<close>\<close>

text \<open>One pass of its loop inserts the debt, under the same foreign keys, and credits the
  recipient at once.\<close>

fun pay_members ::
  "uuid \<Rightarrow> uuid \<Rightarrow> numeric \<Rightarrow> string option \<Rightarrow> uuid list \<Rightarrow> db \<times> int
   \<Rightarrow> error + (db \<times> int)" where
  "pay_members p_group_id v_user_id v_penalty descr [] acc = Inr acc"
| "pay_members p_group_id v_user_id v_penalty descr (member # rest) (s, v_tx_count) =
     (if v_user_id \<in> set (profiles s) \<and> member \<in> set (profiles s) then
        pay_members p_group_id v_user_id v_penalty descr rest
          (s\<lparr>transactions :=
                transactions s @
                  [new_debt (transactions s) p_group_id v_user_id member v_penalty descr None],
              group_members := map (credit_member p_group_id member v_penalty) (group_members s)\<rparr>,
           v_tx_count + 1)
      else Inl ForeignKeyViolation)"

text \<open>
  This version checks neither the session nor the group. With \<^verbatim>\<open>auth.uid()\<close> NULL
  every comparison with \<^verbatim>\<open>v_user_id\<close> is NULL, so no row is updated and the loop is
  empty. With \<^verbatim>\<open>v_penalty\<close> NULL the first row written gets a NULL in a
  \<^verbatim>\<open>NOT NULL\<close> column. The actor is debited \<^verbatim>\<open>v_penalty\<close>, once.
\<close>

definition log_failure_full_setup ::
  "db \<Rightarrow> uuid option \<Rightarrow> uuid \<Rightarrow> string option \<Rightarrow> error + (db \<times> lf_json)" where
  "log_failure_full_setup s auth_uid p_group_id p_description =
     (case auth_uid of
        None \<Rightarrow>
          Inr (s, \<lparr>success = True, transactions_created = 0,
                   total_debt = map_option (\<lambda>p. p * 0) (select_penalty s p_group_id)\<rparr>)
      | Some v_user_id \<Rightarrow>
         (case select_penalty s p_group_id of
            None \<Rightarrow>
              (if members_of s p_group_id = [] then
                 Inr (s, \<lparr>success = True, transactions_created = 0, total_debt = None\<rparr>)
               else Inl NotNullViolation)
          | Some v_penalty \<Rightarrow>
              (case pay_members p_group_id v_user_id v_penalty p_description
                      (other_members s p_group_id v_user_id)
                      (s\<lparr>group_members :=
                           map (debit_member p_group_id v_user_id v_penalty)
                             (map (bump_failure_count p_group_id v_user_id) (group_members s))\<rparr>,
                       0) of
                 Inl e \<Rightarrow> Inl e
               | Inr (s', v_tx_count) \<Rightarrow>
                   Inr (s', \<lparr>success = True, transactions_created = v_tx_count,
                             total_debt = Some (v_penalty * of_int v_tx_count)\<rparr>))))"

section \<open>Settlement\<close>

text \<open>
  \<^verbatim>\<open>settle_debt\<close> of \<^verbatim>\<open>full_setup.sql\<close>; \<open>now\<close> is the value of
  \<^verbatim>\<open>now()\<close>. When no row has the identifier, \<^verbatim>\<open>v_tx\<close> is all NULL: the test
  \<^verbatim>\<open>v_tx.status = 'paid'\<close> is not true, the three updates match no row, and the
  function returns success.
\<close>

definition mark_paid :: "uuid \<Rightarrow> int \<Rightarrow> transaction_row \<Rightarrow> transaction_row" where
  "mark_paid p_transaction_id now t =
     (if tx_id t = p_transaction_id then t\<lparr>status := paid, settled_at := Some now\<rparr> else t)"

definition settle_debt :: "db \<Rightarrow> int \<Rightarrow> uuid \<Rightarrow> db \<times> settle_json" where
  "settle_debt s now p_transaction_id =
     (case select_tx s p_transaction_id of
        None \<Rightarrow> (s, \<lparr>settle_success = True, settle_error = None\<rparr>)
      | Some v_tx \<Rightarrow>
          if status v_tx = paid then
            (s, \<lparr>settle_success = False, settle_error = Some ''Already paid''\<rparr>)
          else
            (s\<lparr>transactions := map (mark_paid p_transaction_id now) (transactions s),
               group_members :=
                 map (debit_member (tx_group_id v_tx) (to_user_id v_tx) (amount v_tx))
                   (map (credit_member (tx_group_id v_tx) (from_user_id v_tx) (amount v_tx))
                     (group_members s))\<rparr>,
             \<lparr>settle_success = True, settle_error = None\<rparr>))"

text \<open>Settling a list of transactions, one call after the other, all at time \<open>now\<close>.\<close>

definition settle_all :: "db \<Rightarrow> int \<Rightarrow> uuid list \<Rightarrow> db" where
  "settle_all s now tids = fold (\<lambda>tid st. fst (settle_debt st now tid)) tids s"

text \<open>What settling the pending transaction \<open>t\<close> adds to the balance of user \<open>v\<close> in
  group \<open>g\<close>.\<close>

definition settle_delta :: "transaction_row \<Rightarrow> uuid \<Rightarrow> uuid \<Rightarrow> numeric" where
  "settle_delta t g v =
     (if g = tx_group_id t \<and> v = from_user_id t then amount t else 0)
     - (if g = tx_group_id t \<and> v = to_user_id t then amount t else 0)"

section \<open>Leaving a group\<close>

text \<open>
  \<^verbatim>\<open>leaveGroup\<close> of the groups hook: the membership row is deleted when its balance is
  zero; \<^verbatim>\<open>.single()\<close> fails unless exactly one row is selected. Pending transactions
  of the leaving member stay in the table.
\<close>

datatype leave_error = LeaveNotAuthenticated | NoSingleRow | UnsettledBalance

definition leaveGroup :: "db \<Rightarrow> uuid option \<Rightarrow> uuid \<Rightarrow> leave_error + db" where
  "leaveGroup s user groupId =
     (case user of
        None \<Rightarrow> Inl LeaveNotAuthenticated
      | Some u \<Rightarrow>
         (case filter (\<lambda>m. group_id m = groupId \<and> user_id m = u) (group_members s) of
            [memberData] \<Rightarrow>
              if current_balance memberData \<noteq> 0 then Inl UnsettledBalance
              else Inr (s\<lparr>group_members :=
                            filter (\<lambda>m. \<not> (group_id m = groupId \<and> user_id m = u)) (group_members s)\<rparr>)
          | _ \<Rightarrow> Inl NoSingleRow))"

section \<open>Goal status\<close>











section \<open>Example states\<close>

text \<open>A group of three members (1, 2, 3) and a group of one, penalty 2.00, nothing owed.
  User 7 has signed up, and so has a profile, and is a member of no group.\<close>

definition ex_trio :: db where
  "ex_trio =
     \<lparr>profiles = [1, 2, 3, 7], groups = [\<lparr>g_id = 1, default_penalty_amount = 2\<rparr>],
      group_members =
        [\<lparr>group_id = 1, user_id = 1, current_balance = 0, failure_count = 0\<rparr>,
         \<lparr>group_id = 1, user_id = 2, current_balance = 0, failure_count = 0\<rparr>,
         \<lparr>group_id = 1, user_id = 3, current_balance = 0, failure_count = 0\<rparr>],
      transactions = []\<rparr>"

definition ex_solo :: db where
  "ex_solo =
     \<lparr>profiles = [1], groups = [\<lparr>g_id = 1, default_penalty_amount = 2\<rparr>],
      group_members =
        [\<lparr>group_id = 1, user_id = 1, current_balance = 0, failure_count = 0\<rparr>],
      transactions = []\<rparr>"

text \<open>The group of three after member 1 has logged a failure: the state that
  \<^verbatim>\<open>log_failure(UUID, TEXT, TEXT)\<close> reaches from \<open>ex_trio\<close>.\<close>

definition ex_trio_failed :: db where
  "ex_trio_failed =
     \<lparr>profiles = [1, 2, 3, 7], groups = [\<lparr>g_id = 1, default_penalty_amount = 2\<rparr>],
      group_members =
        [\<lparr>group_id = 1, user_id = 1, current_balance = - 4, failure_count = 1\<rparr>,
         \<lparr>group_id = 1, user_id = 2, current_balance = 2, failure_count = 0\<rparr>,
         \<lparr>group_id = 1, user_id = 3, current_balance = 2, failure_count = 0\<rparr>],
      transactions =
        [\<lparr>tx_id = 1, tx_group_id = 1, from_user_id = 1, to_user_id = 2, amount = 2,
          description = Some ''Logged failure'', status = pending, proof_photo_url = None,
          settled_at = None\<rparr>,
         \<lparr>tx_id = 2, tx_group_id = 1, from_user_id = 1, to_user_id = 3, amount = 2,
          description = Some ''Logged failure'', status = pending, proof_photo_url = None,
          settled_at = None\<rparr>]\<rparr>"

text \<open>A group of two, penalty 5.00: member 1 fails, member 2 fails, member 1 leaves with
  a balance of zero. The two transactions stay pending.\<close>

definition ex_duo :: db where
  "ex_duo =
     \<lparr>profiles = [1, 2], groups = [\<lparr>g_id = 1, default_penalty_amount = 5\<rparr>],
      group_members =
        [\<lparr>group_id = 1, user_id = 1, current_balance = 0, failure_count = 0\<rparr>,
         \<lparr>group_id = 1, user_id = 2, current_balance = 0, failure_count = 0\<rparr>],
      transactions = []\<rparr>"

definition ex_duo_one_failed :: db where
  "ex_duo_one_failed =
     \<lparr>profiles = [1, 2], groups = [\<lparr>g_id = 1, default_penalty_amount = 5\<rparr>],
      group_members =
        [\<lparr>group_id = 1, user_id = 1, current_balance = - 5, failure_count = 1\<rparr>,
         \<lparr>group_id = 1, user_id = 2, current_balance = 5, failure_count = 0\<rparr>],
      transactions =
        [\<lparr>tx_id = 1, tx_group_id = 1, from_user_id = 1, to_user_id = 2, amount = 5,
          description = Some ''Logged failure'', status = pending, proof_photo_url = None,
          settled_at = None\<rparr>]\<rparr>"

definition ex_duo_pending :: "transaction_row list" where
  "ex_duo_pending =
     [\<lparr>tx_id = 1, tx_group_id = 1, from_user_id = 1, to_user_id = 2, amount = 5,
       description = Some ''Logged failure'', status = pending, proof_photo_url = None,
       settled_at = None\<rparr>,
      \<lparr>tx_id = 2, tx_group_id = 1, from_user_id = 2, to_user_id = 1, amount = 5,
       description = Some ''Logged failure'', status = pending, proof_photo_url = None,
       settled_at = None\<rparr>]"

definition ex_duo_both_failed :: db where
  "ex_duo_both_failed =
     \<lparr>profiles = [1, 2], groups = [\<lparr>g_id = 1, default_penalty_amount = 5\<rparr>],
      group_members =
        [\<lparr>group_id = 1, user_id = 1, current_balance = 0, failure_count = 1\<rparr>,
         \<lparr>group_id = 1, user_id = 2, current_balance = 0, failure_count = 1\<rparr>],
      transactions = ex_duo_pending\<rparr>"

definition ex_duo_left :: db where
  "ex_duo_left =
     \<lparr>profiles = [1, 2], groups = [\<lparr>g_id = 1, default_penalty_amount = 5\<rparr>],
      group_members =
        [\<lparr>group_id = 1, user_id = 2, current_balance = 0, failure_count = 1\<rparr>],
      transactions = ex_duo_pending\<rparr>"

text \<open>The group of three after transaction 1 has been settled at time 9.\<close>

definition ex_trio_settled :: db where
  "ex_trio_settled =
     \<lparr>profiles = [1, 2, 3, 7], groups = [\<lparr>g_id = 1, default_penalty_amount = 2\<rparr>],
      group_members =
        [\<lparr>group_id = 1, user_id = 1, current_balance = - 2, failure_count = 1\<rparr>,
         \<lparr>group_id = 1, user_id = 2, current_balance = 0, failure_count = 0\<rparr>,
         \<lparr>group_id = 1, user_id = 3, current_balance = 2, failure_count = 0\<rparr>],
      transactions =
        [\<lparr>tx_id = 1, tx_group_id = 1, from_user_id = 1, to_user_id = 2, amount = 2,
          description = Some ''Logged failure'', status = paid, proof_photo_url = None,
          settled_at = Some 9\<rparr>,
         \<lparr>tx_id = 2, tx_group_id = 1, from_user_id = 1, to_user_id = 3, amount = 2,
          description = Some ''Logged failure'', status = pending, proof_photo_url = None,
          settled_at = None\<rparr>]\<rparr>"

text \<open>The group of three after user 7, who is no member, has called
  \<^verbatim>\<open>log_failure(UUID, TEXT, TEXT)\<close> on it.\<close>

definition ex_trio_intruded :: db where
  "ex_trio_intruded =
     \<lparr>profiles = [1, 2, 3, 7], groups = [\<lparr>g_id = 1, default_penalty_amount = 2\<rparr>],
      group_members =
        [\<lparr>group_id = 1, user_id = 1, current_balance = 2, failure_count = 0\<rparr>,
         \<lparr>group_id = 1, user_id = 2, current_balance = 2, failure_count = 0\<rparr>,
         \<lparr>group_id = 1, user_id = 3, current_balance = 2, failure_count = 0\<rparr>],
      transactions =
        [\<lparr>tx_id = 1, tx_group_id = 1, from_user_id = 7, to_user_id = 1, amount = 2,
          description = Some ''Logged failure'', status = pending, proof_photo_url = None,
          settled_at = None\<rparr>,
         \<lparr>tx_id = 2, tx_group_id = 1, from_user_id = 7, to_user_id = 2, amount = 2,
          description = Some ''Logged failure'', status = pending, proof_photo_url = None,
          settled_at = None\<rparr>,
         \<lparr>tx_id = 3, tx_group_id = 1, from_user_id = 7, to_user_id = 3, amount = 2,
          description = Some ''Logged failure'', status = pending, proof_photo_url = None,
          settled_at = None\<rparr>]\<rparr>"





section \<open>Lemmas on the ledger\<close>

lemmas ledger_defs =
  select_penalty_def other_members_def new_debt_def fresh_id_def members_of_def
  debit_member_def credit_member_def credit_others_def bump_failure_count_def
  select_tx_def membership_def balance_of_def failures_of_def group_sum_def is_member_def
  unique_members_def mark_paid_def

lemmas ex_defs =
  ex_trio_def ex_solo_def ex_trio_failed_def ex_trio_settled_def ex_duo_def
  ex_duo_one_failed_def ex_duo_pending_def ex_duo_both_failed_def ex_duo_left_def
  ex_trio_intruded_def

subsection \<open>Rounding\<close>

lemma round2_cents: "round2 (rat_of_int k / 100) = rat_of_int k / 100"
proof -
  have "\<lfloor>(1::rat) / 2\<rfloor> = 0" by linarith
  then show ?thesis by (simp add: round2_def)
qed

lemma round2_is_cents: "\<exists>k. round2 x = rat_of_int k / 100"
proof (cases "0 \<le> x")
  case True
  then show ?thesis by (auto simp: round2_def)
next
  case False
  then have "round2 x = rat_of_int (- \<lfloor>- x * 100 + 1 / 2\<rfloor>) / 100"
    by (simp add: round2_def)
  then show ?thesis by blast
qed

lemma round2_add:
  assumes "round2 x = x" "round2 y = y"
  shows "round2 (x + y) = x + y"
proof -
  obtain k where k: "x = rat_of_int k / 100" using round2_is_cents [of x] assms(1) by auto
  obtain l where l: "y = rat_of_int l / 100" using round2_is_cents [of y] assms(2) by auto
  have "x + y = rat_of_int (k + l) / 100" by (simp add: k l add_divide_distrib)
  then show ?thesis by (metis round2_cents)
qed

lemma round2_idem: "round2 (round2 x) = round2 x"
  using round2_is_cents [of x] by (metis round2_cents)

lemma dec10_2_Inr: "dec10_2 x = Inr y \<Longrightarrow> y = round2 x \<and> round2 y = y"
  by (auto simp: dec10_2_def round2_idem split: if_splits)

lemma round2_int: "round2 (rat_of_int k) = rat_of_int k"
  using round2_cents [of "k * 100"] by simp

lemma round2_numeral [simp]: "round2 (numeral n) = numeral n" "round2 0 = 0"
  using round2_int [of "numeral n"] round2_int [of 0] by simp_all

lemma insert_debts_Inr:
  assumes "insert_debts profs g u p d url rs (txs, c, t) = Inr (txs', c', t')"
    and "round2 p = p" "round2 t = t"
  shows "c' = c + int (length rs) \<and> t' = t + p * rat_of_nat (length rs) \<and> length txs' = length txs + length rs"
  using assms
proof (induction rs arbitrary: txs c t)
  case Nil
  then show ?case by simp
next
  case (Cons r rs)
  from Cons.prems(1) obtain debt where debt: "dec10_2 (t + p) = Inr debt"
    and rest: "insert_debts profs g u p d url rs (txs @ [new_debt txs g u r p d url], c + 1, debt) =
        Inr (txs', c', t')"
    by (auto split: sum.splits if_splits)
  from debt Cons.prems(2,3) have "debt = t + p" "round2 debt = debt"
    using dec10_2_Inr round2_add by auto
  with Cons.IH [OF rest Cons.prems(2)] show ?case
    by (simp add: algebra_simps)
qed

subsection \<open>Sums of balances\<close>

lemma group_id_updates [simp]:
  "group_id (bump_failure_count g u m) = group_id m"
  "group_id (debit_member g u x m) = group_id m"
  "group_id (credit_member g u x m) = group_id m"
  "group_id (credit_others g u x m) = group_id m"
  by (simp_all add: bump_failure_count_def debit_member_def credit_member_def credit_others_def)

lemma user_id_updates [simp]:
  "user_id (bump_failure_count g u m) = user_id m"
  "user_id (debit_member g u x m) = user_id m"
  "user_id (credit_member g u x m) = user_id m"
  "user_id (credit_others g u x m) = user_id m"
  by (simp_all add: bump_failure_count_def debit_member_def credit_member_def credit_others_def)

lemma other_group_updates:
  assumes "group_id m \<noteq> g"
  shows "bump_failure_count g u m = m" "debit_member g u x m = m"
    "credit_member g u x m = m" "credit_others g u x m = m"
  using assms
  by (simp_all add: bump_failure_count_def debit_member_def credit_member_def credit_others_def)

lemma sum_after_log_failure:
  "sum_list (map current_balance (filter (\<lambda>m. group_id m = g)
      (map (credit_others g u p) (map (debit_member g u t) (map (bump_failure_count g u) ms))))) =
   sum_list (map current_balance (filter (\<lambda>m. group_id m = g) ms))
     + p * rat_of_nat (length (filter (\<lambda>m. group_id m = g \<and> user_id m \<noteq> u) ms))
     - t * rat_of_nat (length (filter (\<lambda>m. group_id m = g \<and> user_id m = u) ms))"
proof (induction ms)
  case Nil
  show ?case by simp
next
  case (Cons m ms)
  consider (actor) "group_id m = g" "user_id m = u"
    | (other) "group_id m = g" "user_id m \<noteq> u"
    | (outside) "group_id m \<noteq> g"
    by blast
  then show ?case
  proof cases
    case actor
    then have "current_balance (credit_others g u p (debit_member g u t (bump_failure_count g u m)))
        = current_balance m - t"
      by (simp add: credit_others_def debit_member_def bump_failure_count_def)
    with actor Cons.IH show ?thesis
      by (simp add: ring_distribs)
  next
    case other
    then have "current_balance (credit_others g u p (debit_member g u t (bump_failure_count g u m)))
        = current_balance m + p"
      by (simp add: credit_others_def debit_member_def bump_failure_count_def)
    with other Cons.IH show ?thesis
      by (simp add: ring_distribs)
  next
    case outside
    with Cons.IH show ?thesis by simp
  qed
qed

lemma other_group_after_log_failure:
  assumes "g' \<noteq> g"
  shows "filter (\<lambda>m. group_id m = g')
      (map (credit_others g u p) (map (debit_member g u t) (map (bump_failure_count g u) ms))) =
    filter (\<lambda>m. group_id m = g') ms"
  using assms by (induction ms) (auto simp: other_group_updates)

lemma sum_after_settle:
  "sum_list (map current_balance (filter (\<lambda>m. group_id m = g)
      (map (debit_member g b x) (map (credit_member g a x) ms)))) =
   sum_list (map current_balance (filter (\<lambda>m. group_id m = g) ms))
     + x * rat_of_nat (length (filter (\<lambda>m. group_id m = g \<and> user_id m = a) ms))
     - x * rat_of_nat (length (filter (\<lambda>m. group_id m = g \<and> user_id m = b) ms))"
proof (induction ms)
  case Nil
  show ?case by simp
next
  case (Cons m ms)
  have "current_balance (debit_member g b x (credit_member g a x m)) =
      current_balance m + (if group_id m = g \<and> user_id m = a then x else 0)
                        - (if group_id m = g \<and> user_id m = b then x else 0)"
    by (auto simp add: credit_member_def debit_member_def)
  with Cons.IH show ?case
    by (simp add: ring_distribs)
qed

lemma other_group_after_settle:
  assumes "g' \<noteq> g"
  shows "filter (\<lambda>m. group_id m = g') (map (debit_member g b x) (map (credit_member g a x) ms)) =
    filter (\<lambda>m. group_id m = g') ms"
  using assms by (induction ms) (auto simp: other_group_updates)

lemma unique_row_count:
  assumes "distinct (map (\<lambda>m. (group_id m, user_id m)) ms)"
    and "find (\<lambda>m. group_id m = g \<and> user_id m = u) ms \<noteq> None"
  shows "length (filter (\<lambda>m. group_id m = g \<and> user_id m = u) ms) = 1"
  using assms
proof (induction ms)
  case Nil
  then show ?case by simp
next
  case (Cons m ms)
  show ?case
  proof (cases "group_id m = g \<and> user_id m = u")
    case True
    with Cons.prems(1) have "\<forall>m' \<in> set ms. \<not> (group_id m' = g \<and> user_id m' = u)"
      by (auto simp: image_iff)
    then have "filter (\<lambda>m. group_id m = g \<and> user_id m = u) ms = []"
      by (simp add: filter_empty_conv)
    with True show ?thesis by simp
  next
    case False
    with Cons show ?thesis by simp
  qed
qed

lemma dec10_2_numeral [simp]:
  "dec10_2 2 = Inr 2" "dec10_2 4 = Inr 4" "dec10_2 5 = Inr 5" "dec10_2 6 = Inr 6"
  by (simp_all add: dec10_2_def)

subsection \<open>The result of a successful \<^verbatim>\<open>log_failure\<close>\<close>

lemma log_failure_Inr:
  assumes "log_failure s (Some u) g descr url = Inr (s', r)"
  obtains p v_penalty txs n v_total_debt where
    "select_penalty s g = Some p" "dec10_2 p = Inr v_penalty"
    "insert_debts (profiles s) g u v_penalty (Some (case descr of None \<Rightarrow> ''Logged failure'' | Some d \<Rightarrow> d)) url
       (other_members s g u) (transactions s, 0, 0) = Inr (txs, n, v_total_debt)"
    "s' = s\<lparr>transactions := txs,
            group_members := map (credit_others g u v_penalty)
              (map (debit_member g u v_total_debt) (map (bump_failure_count g u) (group_members s)))\<rparr>"
    "r = \<lparr>success = True, transactions_created = n, total_debt = Some v_total_debt\<rparr>"
  using assms
  by (auto simp: log_failure_def split: option.splits sum.splits prod.splits)

lemma log_failure_totals:
  assumes "dec10_2 p = Inr v_penalty"
    and "insert_debts profs g u v_penalty d url (other_members s g u) (txs0, 0, 0) = Inr (txs, n, v_total_debt)"
  shows "n = int (length (other_members s g u))"
    and "v_total_debt = v_penalty * rat_of_nat (length (other_members s g u))"
    and "length txs = length txs0 + length (other_members s g u)"
proof -
  from assms(1) have "round2 v_penalty = v_penalty" by (simp add: dec10_2_Inr)
  moreover have "round2 (0::rat) = 0" by simp
  ultimately have *: "n = 0 + int (length (other_members s g u)) \<and>
      v_total_debt = 0 + v_penalty * rat_of_nat (length (other_members s g u)) \<and>
      length txs = length txs0 + length (other_members s g u)"
    using insert_debts_Inr [OF assms(2)] by blast
  from * show "n = int (length (other_members s g u))" by simp
  from * show "v_total_debt = v_penalty * rat_of_nat (length (other_members s g u))" by simp
  from * show "length txs = length txs0 + length (other_members s g u)" by simp
qed

lemma log_failure_group_sum:
  assumes uniq: "unique_members s" and mem: "is_member s g u"
    and ok: "log_failure s (Some u) g descr url = Inr (s', r)"
  shows "group_sum s' g' = group_sum s g'"
proof -
  from ok obtain p v_penalty txs n v_total_debt where
    pen: "dec10_2 p = Inr v_penalty"
    and loop: "insert_debts (profiles s) g u v_penalty (Some (case descr of None \<Rightarrow> ''Logged failure'' | Some d \<Rightarrow> d)) url
       (other_members s g u) (transactions s, 0, 0) = Inr (txs, n, v_total_debt)"
    and s': "s' = s\<lparr>transactions := txs,
            group_members := map (credit_others g u v_penalty)
              (map (debit_member g u v_total_debt) (map (bump_failure_count g u) (group_members s)))\<rparr>"
    by (rule log_failure_Inr)
  show ?thesis
  proof (cases "g' = g")
    case False
    then show ?thesis
      by (simp add: s' group_sum_def members_of_def other_group_after_log_failure del: map_map)
  next
    case True
    have one: "length (filter (\<lambda>m. group_id m = g \<and> user_id m = u) (group_members s)) = 1"
      using uniq mem by (intro unique_row_count) (simp_all add: unique_members_def is_member_def membership_def)
    have others: "length (other_members s g u) =
        length (filter (\<lambda>m. group_id m = g \<and> user_id m \<noteq> u) (group_members s))"
      by (simp add: other_members_def)
    have tot: "v_total_debt = v_penalty * rat_of_nat (length (other_members s g u))"
      using log_failure_totals(2) [OF pen loop] .
    show ?thesis
      unfolding True
      by (simp add: s' group_sum_def members_of_def sum_after_log_failure one tot others del: map_map)
  qed
qed

lemma settle_debt_group_sum:
  assumes uniq: "unique_members s" and tx: "select_tx s tid = Some t"
    and from_mem: "is_member s (tx_group_id t) (from_user_id t)"
    and to_mem: "is_member s (tx_group_id t) (to_user_id t)"
  shows "group_sum (fst (settle_debt s now tid)) g' = group_sum s g'"
proof (cases "status t = paid")
  case True
  with tx show ?thesis by (simp add: settle_debt_def)
next
  case False
  have a: "length (filter (\<lambda>m. group_id m = tx_group_id t \<and> user_id m = from_user_id t) (group_members s)) = 1"
    using uniq from_mem by (intro unique_row_count) (simp_all add: unique_members_def is_member_def membership_def)
  have b: "length (filter (\<lambda>m. group_id m = tx_group_id t \<and> user_id m = to_user_id t) (group_members s)) = 1"
    using uniq to_mem by (intro unique_row_count) (simp_all add: unique_members_def is_member_def membership_def)
  show ?thesis
  proof (cases "g' = tx_group_id t")
    case True
    with False tx show ?thesis
      by (simp add: settle_debt_def group_sum_def members_of_def sum_after_settle a b del: map_map)
  next
    case neq: False
    with False tx show ?thesis
      by (simp add: settle_debt_def group_sum_def members_of_def other_group_after_settle del: map_map)
  qed
qed

subsection \<open>Balances and failure counts after \<^verbatim>\<open>log_failure\<close>\<close>

lemma find_map_keys:
  assumes "\<And>m. group_id (f m) = group_id m" and "\<And>m. user_id (f m) = user_id m"
  shows "find (\<lambda>m. group_id m = g \<and> user_id m = v) (map f ms) =
    map_option f (find (\<lambda>m. group_id m = g \<and> user_id m = v) ms)"
  by (induction ms) (simp_all add: assms)

lemma membership_keys:
  assumes "membership s g v = Some m"
  shows "group_id m = g" "user_id m = v"
  using assms by (auto simp: membership_def find_Some_iff)

lemma membership_after_log_failure:
  "find (\<lambda>m. group_id m = g' \<and> user_id m = v)
     (map (credit_others g u p) (map (debit_member g u t) (map (bump_failure_count g u) ms))) =
   map_option (\<lambda>m. credit_others g u p (debit_member g u t (bump_failure_count g u m)))
     (find (\<lambda>m. group_id m = g' \<and> user_id m = v) ms)"
  by (simp add: find_map_keys option.map_comp comp_def del: map_map)

lemma membership_after_settle:
  "find (\<lambda>m. group_id m = g' \<and> user_id m = v)
     (map (debit_member g b x) (map (credit_member g a x) ms)) =
   map_option (\<lambda>m. debit_member g b x (credit_member g a x m))
     (find (\<lambda>m. group_id m = g' \<and> user_id m = v) ms)"
  by (simp add: find_map_keys option.map_comp comp_def del: map_map)

lemma log_failure_effect:
  assumes ok: "log_failure s (Some u) g descr url = Inr (s', r)"
    and pen: "select_penalty s g = Some P"
  shows "balance_of s' g u =
           map_option (\<lambda>b. b - round2 P * rat_of_nat (length (other_members s g u))) (balance_of s g u)"
    and "v \<noteq> u \<Longrightarrow> balance_of s' g v = map_option (\<lambda>b. b + round2 P) (balance_of s g v)"
    and "g' \<noteq> g \<Longrightarrow> balance_of s' g' v = balance_of s g' v"
    and "failures_of s' g u = map_option (\<lambda>n. n + 1) (failures_of s g u)"
    and "v \<noteq> u \<or> g' \<noteq> g \<Longrightarrow> failures_of s' g' v = failures_of s g' v"
    and "r = \<lparr>success = True, transactions_created = int (length (other_members s g u)),
              total_debt = Some (round2 P * rat_of_nat (length (other_members s g u)))\<rparr>"
    and "length (transactions s') = length (transactions s) + length (other_members s g u)"
proof -
  from ok obtain p v_penalty txs n v_total_debt where
    p: "select_penalty s g = Some p" and dec: "dec10_2 p = Inr v_penalty"
    and loop: "insert_debts (profiles s) g u v_penalty (Some (case descr of None \<Rightarrow> ''Logged failure'' | Some d \<Rightarrow> d)) url
       (other_members s g u) (transactions s, 0, 0) = Inr (txs, n, v_total_debt)"
    and s': "s' = s\<lparr>transactions := txs,
            group_members := map (credit_others g u v_penalty)
              (map (debit_member g u v_total_debt) (map (bump_failure_count g u) (group_members s)))\<rparr>"
    and r: "r = \<lparr>success = True, transactions_created = n, total_debt = Some v_total_debt\<rparr>"
    by (rule log_failure_Inr)
  from p pen dec have vp: "v_penalty = round2 P" by (simp add: dec10_2_Inr)
  note tot = log_failure_totals [OF dec loop]
  have mem: "membership s' g' v =
      map_option (\<lambda>m. credit_others g u v_penalty (debit_member g u v_total_debt (bump_failure_count g u m)))
        (membership s g' v)" for g' v
    by (simp add: s' membership_def membership_after_log_failure del: map_map)
  show "balance_of s' g u =
           map_option (\<lambda>b. b - round2 P * rat_of_nat (length (other_members s g u))) (balance_of s g u)"
    by (cases "membership s g u")
       (auto simp: balance_of_def mem tot(2) vp credit_others_def debit_member_def bump_failure_count_def
          dest: membership_keys)
  show "balance_of s' g v = map_option (\<lambda>b. b + round2 P) (balance_of s g v)" if "v \<noteq> u"
    using that by (cases "membership s g v")
       (auto simp: balance_of_def mem vp credit_others_def debit_member_def bump_failure_count_def
          dest: membership_keys)
  show "balance_of s' g' v = balance_of s g' v" if "g' \<noteq> g"
    using that by (cases "membership s g' v")
       (auto simp: balance_of_def mem credit_others_def debit_member_def bump_failure_count_def
          dest: membership_keys)
  show "failures_of s' g u = map_option (\<lambda>n. n + 1) (failures_of s g u)"
    by (cases "membership s g u")
       (auto simp: failures_of_def mem credit_others_def debit_member_def bump_failure_count_def
          dest: membership_keys)
  show "failures_of s' g' v = failures_of s g' v" if "v \<noteq> u \<or> g' \<noteq> g"
    using that by (cases "membership s g' v")
       (auto simp: failures_of_def mem credit_others_def debit_member_def bump_failure_count_def
          dest: membership_keys)
  show "r = \<lparr>success = True, transactions_created = int (length (other_members s g u)),
              total_debt = Some (round2 P * rat_of_nat (length (other_members s g u)))\<rparr>"
    by (simp add: r tot vp)
  show "length (transactions s') = length (transactions s) + length (other_members s g u)"
    by (simp add: s' tot)
qed

subsection \<open>The inserted transactions\<close>

lemma fold_max_bounds:
  "(a::nat) \<le> fold max xs a \<and> (\<forall>x \<in> set xs. x \<le> fold max xs a)"
proof (induction xs arbitrary: a)
  case Nil
  show ?case by simp
next
  case (Cons x xs)
  from Cons.IH [of "max x a"] show ?case by auto
qed

lemma fresh_id_greater: "t \<in> set txs \<Longrightarrow> tx_id t < fresh_id txs"
  using fold_max_bounds [of 0 "map tx_id txs"] by (auto simp: fresh_id_def less_Suc_eq_le)

lemma find_append_if:
  "find P (xs @ ys) = (case find P xs of None \<Rightarrow> find P ys | Some x \<Rightarrow> Some x)"
  by (induction xs) simp_all

lemma find_fresh_id: "find (\<lambda>y. tx_id y = fresh_id txs) txs = None"
  using fresh_id_greater by (fastforce simp: find_None_iff)

lemma insert_debts_rows:
  assumes "insert_debts profs g u p d url rs (txs, c, t) = Inr (txs', c', t')"
  shows "\<exists>news. txs' = txs @ news \<and> map to_user_id news = rs
     \<and> (\<forall>x \<in> set news. tx_group_id x = g \<and> from_user_id x = u \<and> amount x = p \<and> description x = d
            \<and> status x = pending \<and> proof_photo_url x = url \<and> settled_at x = None
            \<and> find (\<lambda>y. tx_id y = tx_id x) txs' = Some x)"
  using assms
proof (induction rs arbitrary: txs c t)
  case Nil
  then show ?case by simp
next
  case (Cons r rs)
  let ?nd = "new_debt txs g u r p d url"
  from Cons.prems obtain debt where
    rest: "insert_debts profs g u p d url rs (txs @ [?nd], c + 1, debt) = Inr (txs', c', t')"
    by (auto split: sum.splits if_splits)
  from Cons.IH [OF rest] obtain news where
    news: "txs' = (txs @ [?nd]) @ news" "map to_user_id news = rs"
    "\<forall>x \<in> set news. tx_group_id x = g \<and> from_user_id x = u \<and> amount x = p \<and> description x = d
            \<and> status x = pending \<and> proof_photo_url x = url \<and> settled_at x = None
            \<and> find (\<lambda>y. tx_id y = tx_id x) txs' = Some x"
    by blast
  have "find (\<lambda>y. tx_id y = tx_id ?nd) txs' = Some ?nd"
    by (simp add: news(1) find_append_if find_fresh_id new_debt_def)
  moreover have "tx_group_id ?nd = g \<and> from_user_id ?nd = u \<and> amount ?nd = p \<and> description ?nd = d
            \<and> status ?nd = pending \<and> proof_photo_url ?nd = url \<and> settled_at ?nd = None
            \<and> to_user_id ?nd = r"
    by (simp add: new_debt_def)
  ultimately show ?case
    using news by (intro exI [of _ "?nd # news"]) simp
qed

lemma dec10_2_exact:
  assumes "round2 x = x" "\<bar>x\<bar> < 100000000"
  shows "dec10_2 x = Inr x"
  using assms by (simp add: dec10_2_def)

lemma insert_debts_succeeds:
  assumes "round2 p = p" "round2 t = t"
    and "\<bar>t\<bar> + \<bar>p\<bar> * rat_of_nat (length rs) < 100000000"
    and "set rs \<subseteq> set profs" "rs = [] \<or> u \<in> set profs"
  shows "\<exists>res. insert_debts profs g u p d url rs (txs, c, t) = Inr res"
  using assms(2,3,4,5)
proof (induction rs arbitrary: txs c t)
  case Nil
  show ?case by simp
next
  case (Cons r rs)
  define k where "k = \<bar>p\<bar> * rat_of_nat (length rs)"
  have k: "0 \<le> k" by (simp add: k_def)
  from Cons.prems(2) have bound: "\<bar>t\<bar> + (\<bar>p\<bar> + k) < 100000000"
    by (simp add: k_def ring_distribs)
  from k bound have small: "\<bar>t + p\<bar> < 100000000"
    by linarith
  have exact: "round2 (t + p) = t + p"
    using Cons.prems(1) assms(1) by (rule round2_add)
  from k bound have "\<bar>t + p\<bar> + k < 100000000"
    by linarith
  then have "\<bar>t + p\<bar> + \<bar>p\<bar> * rat_of_nat (length rs) < 100000000"
    by (simp add: k_def)
  moreover from Cons.prems(3,4) have "set rs \<subseteq> set profs" "rs = [] \<or> u \<in> set profs"
    "u \<in> set profs" "r \<in> set profs"
    by simp_all
  ultimately show ?case
    using Cons.IH [OF exact] by (simp add: dec10_2_exact [OF exact small])
qed

lemma log_failure_succeeds:
  assumes "select_penalty s g = Some P" "round2 P = P" "\<bar>P\<bar> < 100000000"
    and "\<bar>P\<bar> * rat_of_nat (length (other_members s g u)) < 100000000"
    and "set (other_members s g u) \<subseteq> set (profiles s)"
    and "other_members s g u = [] \<or> u \<in> set (profiles s)"
  shows "\<exists>s' r. log_failure s (Some u) g descr url = Inr (s', r)"
proof -
  have "\<exists>res. insert_debts (profiles s) g u P (Some (case descr of None \<Rightarrow> ''Logged failure'' | Some d \<Rightarrow> d)) url
      (other_members s g u) (transactions s, 0, 0) = Inr res"
    using assms by (intro insert_debts_succeeds) simp_all
  then show ?thesis
    using assms by (auto simp: log_failure_def dec10_2_exact)
qed

subsection \<open>Balances after \<^verbatim>\<open>settle_debt\<close>\<close>

lemma settle_debt_effect:
  assumes "select_tx s tid = Some t" "status t \<noteq> paid"
  shows "balance_of (fst (settle_debt s now tid)) g v =
      map_option (\<lambda>b. b + (if g = tx_group_id t \<and> v = from_user_id t then amount t else 0)
                         - (if g = tx_group_id t \<and> v = to_user_id t then amount t else 0))
        (balance_of s g v)"
    and "snd (settle_debt s now tid) = \<lparr>settle_success = True, settle_error = None\<rparr>"
proof -
  have mem: "membership (fst (settle_debt s now tid)) g v =
      map_option (\<lambda>m. debit_member (tx_group_id t) (to_user_id t) (amount t)
                        (credit_member (tx_group_id t) (from_user_id t) (amount t) m))
        (membership s g v)"
    using assms by (simp add: settle_debt_def membership_def membership_after_settle del: map_map)
  show "balance_of (fst (settle_debt s now tid)) g v =
      map_option (\<lambda>b. b + (if g = tx_group_id t \<and> v = from_user_id t then amount t else 0)
                         - (if g = tx_group_id t \<and> v = to_user_id t then amount t else 0))
        (balance_of s g v)"
    by (cases "membership s g v")
       (auto simp: balance_of_def mem credit_member_def debit_member_def dest: membership_keys)
  show "snd (settle_debt s now tid) = \<lparr>settle_success = True, settle_error = None\<rparr>"
    using assms by (simp add: settle_debt_def)
qed

lemma other_members_not_actor: "v \<in> set (other_members s g u) \<Longrightarrow> v \<noteq> u"
  by (auto simp: other_members_def)

subsection \<open>Settling every debt of a distribution\<close>

lemma insert_debts_distinct:
  assumes "insert_debts profs g u p d url rs (txs, c, t) = Inr (txs', c', t')"
  shows "\<exists>news. txs' = txs @ news \<and> distinct (map tx_id news)
     \<and> (\<forall>x \<in> set news. \<forall>y \<in> set txs. tx_id x \<noteq> tx_id y)"
  using assms
proof (induction rs arbitrary: txs c t)
  case Nil
  then show ?case by simp
next
  case (Cons r rs)
  let ?nd = "new_debt txs g u r p d url"
  from Cons.prems obtain debt where
    rest: "insert_debts profs g u p d url rs (txs @ [?nd], c + 1, debt) = Inr (txs', c', t')"
    by (auto split: sum.splits if_splits)
  from Cons.IH [OF rest] obtain news where
    news: "txs' = (txs @ [?nd]) @ news" "distinct (map tx_id news)"
    "\<forall>x \<in> set news. \<forall>y \<in> set (txs @ [?nd]). tx_id x \<noteq> tx_id y"
    by blast
  have fresh: "\<forall>y \<in> set txs. tx_id ?nd \<noteq> tx_id y"
    using fresh_id_greater [of _ txs] by (fastforce simp: new_debt_def)
  from news fresh have "txs' = txs @ (?nd # news) \<and> distinct (map tx_id (?nd # news))
     \<and> (\<forall>x \<in> set (?nd # news). \<forall>y \<in> set txs. tx_id x \<noteq> tx_id y)"
    by auto
  then show ?case by blast
qed

lemma find_map_mark_paid_other:
  assumes "tid' \<noteq> tid"
  shows "find (\<lambda>t. tx_id t = tid) (map (mark_paid tid' now) txs) = find (\<lambda>t. tx_id t = tid) txs"
  using assms by (induction txs) (auto simp: mark_paid_def)

lemma select_tx_after_other_settle:
  assumes "tid' \<noteq> tid"
  shows "select_tx (fst (settle_debt s now tid')) tid = select_tx s tid"
  using assms
  by (simp add: settle_debt_def select_tx_def find_map_mark_paid_other split: option.splits)

lemma settle_all_effect:
  assumes "\<forall>x \<in> set xs. select_tx s (tx_id x) = Some x \<and> status x = pending"
    and "distinct (map tx_id xs)"
  shows "balance_of (settle_all s now (map tx_id xs)) g v =
    map_option (\<lambda>b. b + sum_list (map (\<lambda>x. settle_delta x g v) xs)) (balance_of s g v)"
  using assms
proof (induction xs arbitrary: s)
  case Nil
  show ?case by (simp add: settle_all_def option.map_ident)
next
  case (Cons x xs)
  let ?s = "fst (settle_debt s now (tx_id x))"
  from Cons.prems(1) have x: "select_tx s (tx_id x) = Some x" "status x \<noteq> paid"
    by simp_all
  have step: "balance_of ?s g v = map_option (\<lambda>b. b + settle_delta x g v) (balance_of s g v)"
    using settle_debt_effect(1) [OF x] by (simp add: settle_delta_def)
  have rest: "\<forall>y \<in> set xs. select_tx ?s (tx_id y) = Some y \<and> status y = pending"
  proof
    fix y assume y: "y \<in> set xs"
    with Cons.prems(2) have "tx_id x \<noteq> tx_id y" by auto
    then have "select_tx ?s (tx_id y) = select_tx s (tx_id y)"
      by (rule select_tx_after_other_settle)
    with Cons.prems(1) y show "select_tx ?s (tx_id y) = Some y \<and> status y = pending"
      by simp
  qed
  from Cons.prems(2) have "distinct (map tx_id xs)" by simp
  from Cons.IH [OF rest this]
  have "balance_of (settle_all ?s now (map tx_id xs)) g v =
      map_option (\<lambda>b. b + sum_list (map (\<lambda>x. settle_delta x g v) xs)) (balance_of ?s g v)" .
  then show ?case
    by (simp add: settle_all_def step option.map_comp comp_def algebra_simps)
qed

lemma sum_settle_delta:
  assumes "\<forall>x \<in> set news. tx_group_id x = g \<and> from_user_id x = u \<and> amount x = p"
  shows "sum_list (map (\<lambda>x. settle_delta x g v) news) =
    (if v = u then p * rat_of_nat (length news) else 0)
    - p * rat_of_nat (length (filter (\<lambda>w. w = v) (map to_user_id news)))"
  using assms
proof (induction news)
  case Nil
  show ?case by simp
next
  case (Cons x news)
  then have "settle_delta x g v = (if v = u then p else 0) - (if to_user_id x = v then p else 0)"
    by (auto simp: settle_delta_def)
  with Cons show ?case
    by (simp add: ring_distribs)
qed

lemma sum_settle_delta_other_group:
  assumes "\<forall>x \<in> set news. tx_group_id x = g" "g' \<noteq> g"
  shows "sum_list (map (\<lambda>x. settle_delta x g' v) news) = 0"
  using assms by (induction news) (simp_all add: settle_delta_def)

lemma count_other_member:
  assumes "unique_members s" "v \<noteq> u" "is_member s g v"
  shows "length (filter (\<lambda>w. w = v) (other_members s g u)) = 1"
proof -
  have "filter (\<lambda>w. w = v) (other_members s g u) =
      map user_id (filter (\<lambda>m. group_id m = g \<and> user_id m = v) (group_members s))"
    using assms(2) unfolding other_members_def filter_map comp_def filter_filter
    by (intro arg_cong [where f = "map user_id"] filter_cong) auto
  moreover have "length (filter (\<lambda>m. group_id m = g \<and> user_id m = v) (group_members s)) = 1"
    using assms(1,3) by (intro unique_row_count) (simp_all add: unique_members_def is_member_def membership_def)
  ultimately show ?thesis by simp
qed

lemma settle_all_round_trip:
  assumes uniq: "unique_members s" and ok: "log_failure s (Some u) g descr url = Inr (s1, r)"
  shows "balance_of (settle_all s1 now (map tx_id (drop (length (transactions s)) (transactions s1)))) g' v =
    balance_of s g' v"
proof -
  from ok obtain p v_penalty txs n v_total_debt where
    p: "select_penalty s g = Some p" and dec: "dec10_2 p = Inr v_penalty"
    and loop: "insert_debts (profiles s) g u v_penalty (Some (case descr of None \<Rightarrow> ''Logged failure'' | Some d \<Rightarrow> d)) url
       (other_members s g u) (transactions s, 0, 0) = Inr (txs, n, v_total_debt)"
    and s1: "s1 = s\<lparr>transactions := txs,
            group_members := map (credit_others g u v_penalty)
              (map (debit_member g u v_total_debt) (map (bump_failure_count g u) (group_members s)))\<rparr>"
    by (rule log_failure_Inr)
  from insert_debts_rows [OF loop] obtain news where
    news: "txs = transactions s @ news" "map to_user_id news = other_members s g u"
    and rows: "\<forall>x \<in> set news. tx_group_id x = g \<and> from_user_id x = u \<and> amount x = v_penalty
            \<and> description x = Some (case descr of None \<Rightarrow> ''Logged failure'' | Some d \<Rightarrow> d)
            \<and> status x = pending \<and> proof_photo_url x = url \<and> settled_at x = None
            \<and> find (\<lambda>y. tx_id y = tx_id x) txs = Some x"
    by blast
  from insert_debts_distinct [OF loop] news(1) have distinct: "distinct (map tx_id news)"
    by auto
  have new: "drop (length (transactions s)) (transactions s1) = news"
    by (simp add: s1 news(1))
  from rows have found: "\<forall>x \<in> set news. select_tx s1 (tx_id x) = Some x \<and> status x = pending"
    by (simp add: select_tx_def s1)
  from rows have fields: "\<forall>x \<in> set news. tx_group_id x = g \<and> from_user_id x = u \<and> amount x = v_penalty"
    by simp
  from dec p have vp: "v_penalty = round2 p" by (simp add: dec10_2_Inr)
  have n: "length news = length (other_members s g u)"
    using news(2) by (metis length_map)
  note all = settle_all_effect [OF found distinct, of now g' v]
  note eff = log_failure_effect [OF ok p]
  show ?thesis
  proof (cases "g' = g")
    case False
    from fields have "\<forall>x \<in> set news. tx_group_id x = g" by simp
    from sum_settle_delta_other_group [OF this False] all eff(3) [OF False] show ?thesis
      by (simp add: new option.map_ident)
  next
    case True
    note sum = sum_settle_delta [OF fields, of v]
    show ?thesis
    proof (cases "v = u")
      case True
      have "filter (\<lambda>w. w = u) (other_members s g u) = []"
        by (auto simp: filter_empty_conv dest: other_members_not_actor)
      with sum True have "sum_list (map (\<lambda>x. settle_delta x g u) news) =
          round2 p * rat_of_nat (length (other_members s g u))"
        by (simp add: news(2) n vp)
      with all eff(1) True \<open>g' = g\<close> show ?thesis
        by (simp add: new option.map_comp comp_def option.map_ident)
    next
      case False
      show ?thesis
      proof (cases "is_member s g v")
        case True
        from count_other_member [OF uniq False True] sum False
        have "sum_list (map (\<lambda>x. settle_delta x g v) news) = - round2 p"
          by (simp add: news(2) vp)
        with all eff(2) [OF False] \<open>g' = g\<close> show ?thesis
          by (simp add: new option.map_comp comp_def option.map_ident)
      next
        case no: False
        then have "balance_of s g v = None"
          by (simp add: is_member_def balance_of_def)
        with all eff(2) [OF False] \<open>g' = g\<close> show ?thesis
          by (simp add: new)
      qed
    qed
  qed
qed

subsection \<open>A caller who is no member\<close>

lemma non_member_rows:
  assumes "\<not> is_member s g u"
  shows "filter (\<lambda>m. group_id m = g \<and> user_id m \<noteq> u) (group_members s) = members_of s g"
    and "filter (\<lambda>m. group_id m = g \<and> user_id m = u) (group_members s) = []"
proof -
  from assms have none: "\<forall>m \<in> set (group_members s). \<not> (group_id m = g \<and> user_id m = u)"
    by (simp add: is_member_def membership_def find_None_iff)
  then show "filter (\<lambda>m. group_id m = g \<and> user_id m \<noteq> u) (group_members s) = members_of s g"
    unfolding members_of_def by (intro filter_cong) auto
  from none show "filter (\<lambda>m. group_id m = g \<and> user_id m = u) (group_members s) = []"
    by (simp add: filter_empty_conv)
qed

lemma non_member_others:
  assumes "\<not> is_member s g u"
  shows "length (other_members s g u) = length (members_of s g)"
  using non_member_rows(1) [OF assms] by (simp add: other_members_def)

subsection \<open>Settling twice\<close>

lemma find_map_mark_paid:
  "find (\<lambda>t. tx_id t = tid) (map (mark_paid tid now) txs) =
     map_option (mark_paid tid now) (find (\<lambda>t. tx_id t = tid) txs)"
  by (induction txs) (simp_all add: mark_paid_def)

lemma select_tx_settled:
  assumes "select_tx s tid = Some t" "status t \<noteq> paid"
  shows "select_tx (fst (settle_debt s now tid)) tid = Some (t\<lparr>status := paid, settled_at := Some now\<rparr>)"
proof -
  from assms(1) have "tx_id t = tid"
    by (auto simp: select_tx_def find_Some_iff)
  with assms show ?thesis
    by (simp add: settle_debt_def select_tx_def find_map_mark_paid mark_paid_def)
qed

lemma settle_debt_not_found:
  assumes "select_tx s tid = None"
  shows "settle_debt s now tid = (s, \<lparr>settle_success = True, settle_error = None\<rparr>)"
  using assms by (simp add: settle_debt_def)

lemma settle_debt_paid:
  assumes "select_tx s tid = Some t" "status t = paid"
  shows "settle_debt s now tid = (s, \<lparr>settle_success = False, settle_error = Some ''Already paid''\<rparr>)"
  using assms by (simp add: settle_debt_def)

subsection \<open>The uniqueness of membership rows\<close>

lemma keys_after_log_failure:
  "map (\<lambda>m. (group_id m, user_id m))
     (map (credit_others g u p) (map (debit_member g u t) (map (bump_failure_count g u) ms))) =
   map (\<lambda>m. (group_id m, user_id m)) ms"
  by (induction ms) simp_all

lemma keys_after_settle:
  "map (\<lambda>m. (group_id m, user_id m)) (map (debit_member g b x) (map (credit_member g a x) ms)) =
   map (\<lambda>m. (group_id m, user_id m)) ms"
  by (induction ms) simp_all

lemma log_failure_unique_members:
  assumes "unique_members s" "log_failure s (Some u) g descr url = Inr (s', r)"
  shows "unique_members s'"
proof -
  from assms(2) obtain txs v_penalty v_total_debt where
    "s' = s\<lparr>transactions := txs,
            group_members := map (credit_others g u v_penalty)
              (map (debit_member g u v_total_debt) (map (bump_failure_count g u) (group_members s)))\<rparr>"
    by (rule log_failure_Inr)
  with assms(1) show ?thesis
    by (simp add: unique_members_def keys_after_log_failure del: map_map)
qed

lemma settle_debt_unique_members:
  assumes "unique_members s"
  shows "unique_members (fst (settle_debt s now tid))"
  using assms
  by (simp add: settle_debt_def unique_members_def keys_after_settle
      split: option.splits del: map_map)

subsection \<open>The example states\<close>

lemma ex_trio_log_failure:
  "log_failure ex_trio (Some 1) 1 None None =
     Inr (ex_trio_failed, \<lparr>success = True, transactions_created = 2, total_debt = Some 4\<rparr>)"
  by (simp add: log_failure_def ex_defs ledger_defs)

lemma ex_trio_failed_second_failure:
  "log_failure ex_trio_failed (Some 2) 1 None None =
     Inr (ex_trio_failed
            \<lparr>transactions := transactions ex_trio_failed @
               [\<lparr>tx_id = 3, tx_group_id = 1, from_user_id = 2, to_user_id = 1, amount = 2,
                 description = Some ''Logged failure'', status = pending, proof_photo_url = None,
                 settled_at = None\<rparr>,
                \<lparr>tx_id = 4, tx_group_id = 1, from_user_id = 2, to_user_id = 3, amount = 2,
                 description = Some ''Logged failure'', status = pending, proof_photo_url = None,
                 settled_at = None\<rparr>],
             group_members :=
               [\<lparr>group_id = 1, user_id = 1, current_balance = - 2, failure_count = 1\<rparr>,
                \<lparr>group_id = 1, user_id = 2, current_balance = - 2, failure_count = 1\<rparr>,
                \<lparr>group_id = 1, user_id = 3, current_balance = 4, failure_count = 0\<rparr>]\<rparr>,
          \<lparr>success = True, transactions_created = 2, total_debt = Some 4\<rparr>)"
  by (simp add: log_failure_def ex_defs ledger_defs)

lemma ex_trio_settle:
  "settle_debt ex_trio_failed 9 1 =
     (ex_trio_settled, \<lparr>settle_success = True, settle_error = None\<rparr>)"
  by (simp add: settle_debt_def ex_defs ledger_defs)

section \<open>The zero-sum invariant\<close>

text \<open>
  Claim C1, as amended. In a state where the balances of a group \<open>g\<close> sum to 0 and the
  membership rows are unique per group and user, the sum is still 0, and the rows still
  unique, after a successful \<^verbatim>\<open>log_failure(UUID, TEXT, TEXT)\<close> by a current member
  of the group it is called on, and after \<^verbatim>\<open>settle_debt\<close> on a transaction whose
  \<^verbatim>\<open>from_user_id\<close> and \<^verbatim>\<open>to_user_id\<close> are both current members of the
  transaction's group. A failing \<^verbatim>\<open>log_failure\<close> writes nothing.
\<close>

theorem zero_sum_preserved:
  assumes "unique_members s" and "group_sum s g = 0"
  shows "(is_member s p_group_id u \<and> log_failure s (Some u) p_group_id descr url = Inr (s', r)
            \<longrightarrow> group_sum s' g = 0 \<and> unique_members s')
       \<and> (select_tx s tid = Some t \<and> is_member s (tx_group_id t) (from_user_id t)
            \<and> is_member s (tx_group_id t) (to_user_id t)
            \<longrightarrow> group_sum (fst (settle_debt s now tid)) g = 0
                \<and> unique_members (fst (settle_debt s now tid)))"
  using assms log_failure_group_sum [of s p_group_id u descr url s' r g]
    settle_debt_group_sum [of s tid t now g]
    log_failure_unique_members [of s u p_group_id descr url s' r]
    settle_debt_unique_members [of s now tid]
  by simp

text \<open>The theorem at the group of three with two pending debts: member 2 logs a failure,
  or transaction 1 (from 1 to 2) is settled.\<close>

theorem zero_sum_preserved_witness:
  "unique_members ex_trio_failed \<and> group_sum ex_trio_failed 1 = 0
   \<and> is_member ex_trio_failed 1 2
   \<and> (case log_failure ex_trio_failed (Some 2) 1 None None of
         Inl e \<Rightarrow> False | Inr (s', r) \<Rightarrow> group_sum s' 1 = 0)
   \<and> map_option to_user_id (select_tx ex_trio_failed 1) = Some 2
   \<and> is_member ex_trio_failed 1 1
   \<and> group_sum (fst (settle_debt ex_trio_failed 9 1)) 1 = 0"
proof -
  have u: "unique_members ex_trio_failed" and z: "group_sum ex_trio_failed 1 = 0"
    and m: "is_member ex_trio_failed 1 2" "is_member ex_trio_failed 1 1"
    by (simp_all add: ex_defs ledger_defs)
  obtain s' r where lf: "log_failure ex_trio_failed (Some 2) 1 None None = Inr (s', r)"
    using ex_trio_failed_second_failure by blast
  obtain tx where tx: "select_tx ex_trio_failed 1 = Some tx" "tx_group_id tx = 1"
    "from_user_id tx = 1" "to_user_id tx = 2"
    by (simp add: ex_defs ledger_defs)
  from zero_sum_preserved [OF u z, of 1 2 None None s' r 1 tx 9] lf tx m u z show ?thesis
    by simp
qed

text \<open>
  The claim as stated fails for \<^verbatim>\<open>settle_debt\<close>. In a group of two with penalty
  5.00, member 1 fails, then member 2 fails, and member 1, whose balance is back to 0,
  leaves. The balances of the group (member 2 alone) sum to 0. Settling transaction 1 of
  the group, still pending, debits member 2 and credits no row: the sum is -5.
\<close>

theorem zero_sum_counterexample:
  "log_failure ex_duo (Some 1) 1 None None =
     Inr (ex_duo_one_failed, \<lparr>success = True, transactions_created = 1, total_debt = Some 5\<rparr>)
   \<and> log_failure ex_duo_one_failed (Some 2) 1 None None =
     Inr (ex_duo_both_failed, \<lparr>success = True, transactions_created = 1, total_debt = Some 5\<rparr>)
   \<and> leaveGroup ex_duo_both_failed (Some 1) 1 = Inr ex_duo_left
   \<and> unique_members ex_duo_left
   \<and> group_sum ex_duo_left 1 = 0
   \<and> map_option tx_group_id (select_tx ex_duo_left 1) = Some 1
   \<and> map_option status (select_tx ex_duo_left 1) = Some pending
   \<and> snd (settle_debt ex_duo_left 9 1) = \<lparr>settle_success = True, settle_error = None\<rparr>
   \<and> group_sum (fst (settle_debt ex_duo_left 9 1)) 1 = - 5"
  by (simp add: log_failure_def leaveGroup_def settle_debt_def ex_defs ledger_defs)

section \<open>Settling a paid transaction\<close>

text \<open>
  Claim C4. For every transaction \<open>t\<close> with status paid, \<^verbatim>\<open>settle_debt\<close> returns
  the error \<^verbatim>\<open>Already paid\<close> with \<^verbatim>\<open>success = false\<close> and leaves the whole state
  as it was: no balance and no transaction changes. Hence settling an existing transaction
  twice in a row is rejected the second time, and the second call changes nothing.
\<close>

theorem settle_debt_already_paid:
  assumes "select_tx s tid = Some t"
  shows "(status t = paid \<longrightarrow>
            settle_debt s now tid = (s, \<lparr>settle_success = False, settle_error = Some ''Already paid''\<rparr>))
       \<and> settle_debt (fst (settle_debt s now tid)) now' tid =
            (fst (settle_debt s now tid), \<lparr>settle_success = False, settle_error = Some ''Already paid''\<rparr>)"
proof (cases "status t = paid")
  case True
  with assms show ?thesis by (simp add: settle_debt_paid)
next
  case False
  from select_tx_settled [OF assms False, of now]
  show ?thesis using False by (simp add: settle_debt_paid)
qed

text \<open>The theorem at the paid transaction 1 of the group of three.\<close>

theorem settle_debt_already_paid_witness:
  "map_option status (select_tx ex_trio_settled 1) = Some paid
   \<and> settle_debt ex_trio_settled 10 1 =
       (ex_trio_settled, \<lparr>settle_success = False, settle_error = Some ''Already paid''\<rparr>)"
proof -
  obtain tx where tx: "select_tx ex_trio_settled 1 = Some tx" "status tx = paid"
    by (simp add: ex_defs ledger_defs)
  from settle_debt_already_paid [OF tx(1), of 10 10] tx show ?thesis
    by simp
qed

section \<open>Settling a debt of a distribution\<close>

text \<open>
  Claim C3, as amended. For every transaction \<open>t\<close> that a successful
  \<^verbatim>\<open>log_failure(UUID, TEXT, TEXT)\<close> by \<open>u\<close> in group \<open>g\<close> has created,
  \<^verbatim>\<open>settle_debt\<close> on \<open>t\<close> succeeds, returns the balance of \<^verbatim>\<open>to_user_id\<close> to
  its value before the distribution, and leaves the balance of \<^verbatim>\<open>from_user_id\<close>
  (the actor \<open>u\<close>) below its value before the distribution by the amount of each of the
  other \<open>n - 1\<close> transactions of the distribution: it reverses the share of \<open>t\<close> alone,
  and returns the actor's balance when \<open>n = 1\<close>. Once every transaction of the
  distribution is settled, every balance is back at its value before the distribution,
  provided the membership rows are unique per group and user.
\<close>

theorem settle_after_log_failure:
  assumes ok: "log_failure s (Some u) g descr url = Inr (s1, r)"
    and new: "t \<in> set (drop (length (transactions s)) (transactions s1))"
  shows "from_user_id t = u \<and> to_user_id t \<noteq> u
     \<and> snd (settle_debt s1 now (tx_id t)) = \<lparr>settle_success = True, settle_error = None\<rparr>
     \<and> balance_of (fst (settle_debt s1 now (tx_id t))) g (to_user_id t) = balance_of s g (to_user_id t)
     \<and> balance_of (fst (settle_debt s1 now (tx_id t))) g u =
         map_option (\<lambda>b. b - amount t * (rat_of_nat (length (other_members s g u)) - 1)) (balance_of s g u)
     \<and> (unique_members s \<longrightarrow>
          balance_of (settle_all s1 now (map tx_id (drop (length (transactions s)) (transactions s1)))) g' v =
          balance_of s g' v)"
proof -
  from ok obtain p v_penalty txs n v_total_debt where
    p: "select_penalty s g = Some p" and dec: "dec10_2 p = Inr v_penalty"
    and loop: "insert_debts (profiles s) g u v_penalty (Some (case descr of None \<Rightarrow> ''Logged failure'' | Some d \<Rightarrow> d)) url
       (other_members s g u) (transactions s, 0, 0) = Inr (txs, n, v_total_debt)"
    and s1: "s1 = s\<lparr>transactions := txs,
            group_members := map (credit_others g u v_penalty)
              (map (debit_member g u v_total_debt) (map (bump_failure_count g u) (group_members s)))\<rparr>"
    by (rule log_failure_Inr)
  from insert_debts_rows [OF loop] obtain news where
    news: "txs = transactions s @ news" "map to_user_id news = other_members s g u"
    and rows: "\<forall>x \<in> set news. tx_group_id x = g \<and> from_user_id x = u \<and> amount x = v_penalty
            \<and> description x = Some (case descr of None \<Rightarrow> ''Logged failure'' | Some d \<Rightarrow> d)
            \<and> status x = pending \<and> proof_photo_url x = url \<and> settled_at x = None
            \<and> find (\<lambda>y. tx_id y = tx_id x) txs = Some x"
    by blast
  from new have t_new: "t \<in> set news" by (simp add: s1 news(1))
  with rows have t: "tx_group_id t = g" "from_user_id t = u" "amount t = v_penalty" "status t = pending"
    and sel: "select_tx s1 (tx_id t) = Some t"
    by (simp_all add: select_tx_def s1)
  from t_new news(2) have "to_user_id t \<in> set (other_members s g u)"
    by (metis image_eqI set_map)
  then have to: "to_user_id t \<noteq> u" by (rule other_members_not_actor)
  from dec p have vp: "v_penalty = round2 p" by (simp add: dec10_2_Inr)
  have pending: "status t \<noteq> paid" by (simp add: t)
  note settle = settle_debt_effect [OF sel pending]
  note fail = log_failure_effect [OF ok p]
  have "balance_of (fst (settle_debt s1 now (tx_id t))) g (to_user_id t) = balance_of s g (to_user_id t)"
    using to by (simp add: settle(1) fail(2) t vp option.map_comp comp_def option.map_ident)
  moreover have "balance_of (fst (settle_debt s1 now (tx_id t))) g u =
         map_option (\<lambda>b. b - amount t * (rat_of_nat (length (other_members s g u)) - 1)) (balance_of s g u)"
    using to by (simp add: settle(1) fail(1) t vp option.map_comp comp_def algebra_simps)
  ultimately show ?thesis
    using to t settle(2) settle_all_round_trip [OF _ ok, of now g' v] by simp
qed

text \<open>The theorem at the group of three: member 1 fails, the debt to member 2 is settled.\<close>

theorem settle_after_log_failure_witness:
  "log_failure ex_trio (Some 1) 1 None None =
     Inr (ex_trio_failed, \<lparr>success = True, transactions_created = 2, total_debt = Some 4\<rparr>)
   \<and> hd (transactions ex_trio_failed) \<in> set (drop (length (transactions ex_trio)) (transactions ex_trio_failed))
   \<and> tx_id (hd (transactions ex_trio_failed)) = 1
   \<and> to_user_id (hd (transactions ex_trio_failed)) = 2
   \<and> balance_of ex_trio 1 2 = Some 0
   \<and> balance_of (fst (settle_debt ex_trio_failed 9 1)) 1 2 = Some 0
   \<and> balance_of ex_trio 1 1 = Some 0
   \<and> balance_of (fst (settle_debt ex_trio_failed 9 1)) 1 1 = Some (- 2)
   \<and> unique_members ex_trio
   \<and> balance_of (settle_all ex_trio_failed 9 [1, 2]) 1 1 = Some 0"
proof -
  have new: "hd (transactions ex_trio_failed) \<in>
      set (drop (length (transactions ex_trio)) (transactions ex_trio_failed))"
    by (simp add: ex_defs)
  have facts: "tx_id (hd (transactions ex_trio_failed)) = 1"
    "to_user_id (hd (transactions ex_trio_failed)) = 2"
    "amount (hd (transactions ex_trio_failed)) = 2"
    "balance_of ex_trio 1 2 = Some 0" "balance_of ex_trio 1 1 = Some 0"
    "length (other_members ex_trio 1 1) = 2"
    "unique_members ex_trio"
    "map tx_id (drop (length (transactions ex_trio)) (transactions ex_trio_failed)) = [1, 2]"
    by (simp_all add: ex_defs ledger_defs)
  from settle_after_log_failure [OF ex_trio_log_failure new, of 9 1 1] facts new ex_trio_log_failure
  show ?thesis by simp
qed

text \<open>
  The claim as stated fails for \<^verbatim>\<open>from_user_id\<close> as soon as the distribution has two
  recipients: in the group of three with penalty 2.00, member 1 is at 0 before the failure,
  at -4 after it, and at -2, not 0, once transaction 1 is settled.
\<close>

theorem settle_round_trip_counterexample:
  "log_failure ex_trio (Some 1) 1 None None =
     Inr (ex_trio_failed, \<lparr>success = True, transactions_created = 2, total_debt = Some 4\<rparr>)
   \<and> map_option from_user_id (select_tx ex_trio_failed 1) = Some 1
   \<and> settle_debt ex_trio_failed 9 1 =
       (ex_trio_settled, \<lparr>settle_success = True, settle_error = None\<rparr>)
   \<and> balance_of ex_trio 1 1 = Some 0
   \<and> balance_of ex_trio_failed 1 1 = Some (- 4)
   \<and> balance_of ex_trio_settled 1 1 = Some (- 2)"
  by (simp add: log_failure_def settle_debt_def ex_defs ledger_defs)

section \<open>The distribution of a penalty\<close>

text \<open>
  What \<^verbatim>\<open>log_failure(UUID, TEXT, TEXT)\<close> does for a caller \<open>u\<close> with \<open>n\<close> other
  members, when the penalty \<open>P\<close> has two decimals, \<open>P\<close> and \<open>P * n\<close> fit
  \<^verbatim>\<open>DECIMAL(10,2)\<close> and the users named by the new transactions have profiles: it
  succeeds, inserts \<open>n\<close> pending transactions from \<open>u\<close> of
  amount \<open>P\<close>, one to each other member, debits \<open>u\<close> by \<open>P * n\<close>, credits each other
  member \<open>P\<close>, adds one to the failure count of \<open>u\<close>, and returns \<open>n\<close> and \<open>P * n\<close>.
\<close>

lemma log_failure_rows:
  assumes ok: "log_failure s (Some u) g descr url = Inr (s', r)"
    and pen: "select_penalty s g = Some P"
  shows "\<exists>news. transactions s' = transactions s @ news
     \<and> map to_user_id news = other_members s g u
     \<and> (\<forall>x \<in> set news. tx_group_id x = g \<and> from_user_id x = u \<and> amount x = round2 P
            \<and> status x = pending \<and> proof_photo_url x = url \<and> settled_at x = None)"
proof -
  from ok obtain p v_penalty txs n v_total_debt where
    p: "select_penalty s g = Some p" and dec: "dec10_2 p = Inr v_penalty"
    and loop: "insert_debts (profiles s) g u v_penalty (Some (case descr of None \<Rightarrow> ''Logged failure'' | Some d \<Rightarrow> d)) url
       (other_members s g u) (transactions s, 0, 0) = Inr (txs, n, v_total_debt)"
    and s': "s' = s\<lparr>transactions := txs,
            group_members := map (credit_others g u v_penalty)
              (map (debit_member g u v_total_debt) (map (bump_failure_count g u) (group_members s)))\<rparr>"
    by (rule log_failure_Inr)
  from p pen dec have vp: "v_penalty = round2 P" by (simp add: dec10_2_Inr)
  from insert_debts_rows [OF loop] show ?thesis
    unfolding vp s' by fastforce
qed

lemma log_failure_distribution:
  assumes pen: "select_penalty s g = Some P" and cents: "round2 P = P"
    and fits: "\<bar>P\<bar> < 100000000" "\<bar>P\<bar> * rat_of_nat (length (other_members s g u)) < 100000000"
    and known: "set (other_members s g u) \<subseteq> set (profiles s)"
      "other_members s g u = [] \<or> u \<in> set (profiles s)"
  shows "\<exists>s' news. log_failure s (Some u) g descr url =
        Inr (s', \<lparr>success = True, transactions_created = int (length (other_members s g u)),
                  total_debt = Some (P * rat_of_nat (length (other_members s g u)))\<rparr>)
     \<and> transactions s' = transactions s @ news
     \<and> map to_user_id news = other_members s g u
     \<and> (\<forall>x \<in> set news. tx_group_id x = g \<and> from_user_id x = u \<and> amount x = P \<and> status x = pending)
     \<and> balance_of s' g u =
         map_option (\<lambda>b. b - P * rat_of_nat (length (other_members s g u))) (balance_of s g u)
     \<and> (\<forall>v. v \<noteq> u \<longrightarrow> balance_of s' g v = map_option (\<lambda>b. b + P) (balance_of s g v))
     \<and> failures_of s' g u = map_option (\<lambda>n. n + 1) (failures_of s g u)"
proof -
  from log_failure_succeeds [OF pen cents fits known] obtain s' r where
    ok: "log_failure s (Some u) g descr url = Inr (s', r)"
    by blast
  note eff = log_failure_effect [OF ok pen]
  from log_failure_rows [OF ok pen] obtain news where
    "transactions s' = transactions s @ news" "map to_user_id news = other_members s g u"
    "\<forall>x \<in> set news. tx_group_id x = g \<and> from_user_id x = u \<and> amount x = P \<and> status x = pending"
    unfolding cents by blast
  with ok eff(1,2,4,6) show ?thesis
    unfolding cents by blast
qed

lemma log_failure_sole_member:
  assumes pen: "select_penalty s g = Some P" and cents: "round2 P = P" and fits: "\<bar>P\<bar> < 100000000"
    and alone: "other_members s g u = []"
  shows "\<exists>s'. log_failure s (Some u) g descr url =
        Inr (s', \<lparr>success = True, transactions_created = 0, total_debt = Some 0\<rparr>)
     \<and> transactions s' = transactions s
     \<and> balance_of s' g' v = balance_of s g' v
     \<and> failures_of s' g u = map_option (\<lambda>n. n + 1) (failures_of s g u)"
proof -
  have "\<bar>P\<bar> * rat_of_nat (length (other_members s g u)) < 100000000"
    "set (other_members s g u) \<subseteq> set (profiles s)"
    "other_members s g u = [] \<or> u \<in> set (profiles s)"
    by (simp_all add: alone)
  from log_failure_distribution [OF pen cents fits this, of descr url] obtain s' news where
    ok: "log_failure s (Some u) g descr url =
        Inr (s', \<lparr>success = True, transactions_created = 0, total_debt = Some 0\<rparr>)"
    and txs: "transactions s' = transactions s @ news" "map to_user_id news = other_members s g u"
    and fc: "failures_of s' g u = map_option (\<lambda>n. n + 1) (failures_of s g u)"
    by (auto simp: alone)
  note eff = log_failure_effect [OF ok pen]
  have "balance_of s' g' v = balance_of s g' v"
  proof (cases "g' = g")
    case False
    then show ?thesis by (rule eff(3))
  next
    case True
    show ?thesis
    proof (cases "v = u")
      case True
      with eff(1) \<open>g' = g\<close> show ?thesis by (simp add: alone option.map_ident)
    next
      case False
      have "membership s g v = None"
      proof (rule ccontr)
        assume "membership s g v \<noteq> None"
        then obtain m where "membership s g v = Some m" by blast
        then have "m \<in> set (group_members s)" "group_id m = g" "user_id m = v"
          by (auto simp: membership_def find_Some_iff in_set_conv_nth)
        with False have "v \<in> set (other_members s g u)"
          by (auto simp: other_members_def)
        with alone show False by simp
      qed
      with eff(2) [OF False] \<open>g' = g\<close> show ?thesis by (simp add: balance_of_def)
    qed
  qed
  with ok txs fc show ?thesis by (auto simp: alone)
qed

text \<open>
  Claim C2: a failure logged by a member with \<open>n\<close> other members creates \<open>n\<close> pending
  transactions of the penalty \<open>P\<close> from the actor, debits the actor \<open>P * n\<close>, credits
  each other member \<open>P\<close> and returns \<open>n\<close> and \<open>P * n\<close>.
  \<^verbatim>\<open>log_failure(UUID, TEXT, TEXT)\<close> does so (lemma \<open>log_failure_distribution\<close>).
  \<^verbatim>\<open>log_failure(uuid, text)\<close> of \<^verbatim>\<open>full_setup.sql\<close>, which the older client
  calls, does not: it debits the actor \<^verbatim>\<open>v_penalty\<close>, once. In the group of three with
  penalty 2.00, member 1 ends at -2.00 where the claim says -4.00, while two transactions
  of 2.00 are created, members 2 and 3 are credited 2.00 each and a total debt of 4.00 is
  returned.
\<close>

theorem log_failure_full_setup_trio:
  "log_failure_full_setup ex_trio (Some 1) 1 None =
     Inr (\<lparr>profiles = [1, 2, 3, 7], groups = [\<lparr>g_id = 1, default_penalty_amount = 2\<rparr>],
           group_members =
             [\<lparr>group_id = 1, user_id = 1, current_balance = - 2, failure_count = 1\<rparr>,
              \<lparr>group_id = 1, user_id = 2, current_balance = 2, failure_count = 0\<rparr>,
              \<lparr>group_id = 1, user_id = 3, current_balance = 2, failure_count = 0\<rparr>],
           transactions =
             [\<lparr>tx_id = 1, tx_group_id = 1, from_user_id = 1, to_user_id = 2, amount = 2,
               description = None, status = pending, proof_photo_url = None, settled_at = None\<rparr>,
              \<lparr>tx_id = 2, tx_group_id = 1, from_user_id = 1, to_user_id = 3, amount = 2,
               description = None, status = pending, proof_photo_url = None, settled_at = None\<rparr>]\<rparr>,
          \<lparr>success = True, transactions_created = 2, total_debt = Some 4\<rparr>)"
  by (simp add: log_failure_full_setup_def ex_defs ledger_defs)

text \<open>
  Claim C5: a failure logged by the sole member of a group succeeds, creates no
  transaction, adds one to the failure count and changes no balance.
  \<^verbatim>\<open>log_failure(UUID, TEXT, TEXT)\<close> does so (lemma \<open>log_failure_sole_member\<close>).
  \<^verbatim>\<open>log_failure(uuid, text)\<close> of \<^verbatim>\<open>full_setup.sql\<close> does not: the sole member
  of a group with penalty 2.00 is debited 2.00, with no transaction created and nobody
  credited.
\<close>

theorem log_failure_full_setup_solo:
  "log_failure_full_setup ex_solo (Some 1) 1 None =
     Inr (\<lparr>profiles = [1], groups = [\<lparr>g_id = 1, default_penalty_amount = 2\<rparr>],
           group_members =
             [\<lparr>group_id = 1, user_id = 1, current_balance = - 2, failure_count = 1\<rparr>],
           transactions = []\<rparr>,
          \<lparr>success = True, transactions_created = 0, total_debt = Some 0\<rparr>)"
  by (simp add: log_failure_full_setup_def ex_defs ledger_defs)

text \<open>
  Claim C10: the two versions of \<^verbatim>\<open>log_failure\<close> insert the same transactions and
  change the balances of the actor and of each recipient alike. They do not: with the same
  description they insert the same transactions, credit the recipients alike and return
  the same total, but they differ in the balance of the actor. In the group of three with
  penalty 2.00 the version of \<^verbatim>\<open>photo_proof_setup.sql\<close> leaves member 1 at -4.00 and
  the version of \<^verbatim>\<open>full_setup.sql\<close> at -2.00.
\<close>

theorem log_failure_versions_differ:
  "map_sum id (\<lambda>(s, r). (transactions s, balance_of s 1 1, balance_of s 1 2, balance_of s 1 3, r))
     (log_failure ex_trio (Some 1) 1 (Some ''late'') None) =
     Inr ([\<lparr>tx_id = 1, tx_group_id = 1, from_user_id = 1, to_user_id = 2, amount = 2,
            description = Some ''late'', status = pending, proof_photo_url = None, settled_at = None\<rparr>,
           \<lparr>tx_id = 2, tx_group_id = 1, from_user_id = 1, to_user_id = 3, amount = 2,
            description = Some ''late'', status = pending, proof_photo_url = None, settled_at = None\<rparr>],
          Some (- 4), Some 2, Some 2,
          \<lparr>success = True, transactions_created = 2, total_debt = Some 4\<rparr>)
   \<and> map_sum id (\<lambda>(s, r). (transactions s, balance_of s 1 1, balance_of s 1 2, balance_of s 1 3, r))
     (log_failure_full_setup ex_trio (Some 1) 1 (Some ''late'')) =
     Inr ([\<lparr>tx_id = 1, tx_group_id = 1, from_user_id = 1, to_user_id = 2, amount = 2,
            description = Some ''late'', status = pending, proof_photo_url = None, settled_at = None\<rparr>,
           \<lparr>tx_id = 2, tx_group_id = 1, from_user_id = 1, to_user_id = 3, amount = 2,
            description = Some ''late'', status = pending, proof_photo_url = None, settled_at = None\<rparr>],
          Some (- 2), Some 2, Some 2,
          \<lparr>success = True, transactions_created = 2, total_debt = Some 4\<rparr>)"
  by (simp add: log_failure_def log_failure_full_setup_def ex_defs ledger_defs)

section \<open>A failure logged by a user who is no member\<close>

text \<open>
  What a successful \<^verbatim>\<open>log_failure(UUID, TEXT, TEXT)\<close> has done when the caller \<open>u\<close>
  is no member of the group: one pending transaction from \<open>u\<close> to every member, every
  member credited the penalty, no failure count changed, and the balances of the group
  summing to that much more.
\<close>

lemma log_failure_non_member_effect:
  assumes nm: "\<not> is_member s g u" and pen: "select_penalty s g = Some P"
    and ok: "log_failure s (Some u) g descr url = Inr (s', r)"
  shows "\<exists>news. transactions s' = transactions s @ news
       \<and> map to_user_id news = map user_id (members_of s g)
       \<and> (\<forall>x \<in> set news. tx_group_id x = g \<and> from_user_id x = u \<and> amount x = round2 P
              \<and> status x = pending)"
    and "balance_of s' g v = map_option (\<lambda>b. b + round2 P) (balance_of s g v)"
    and "failures_of s' g' v = failures_of s g' v"
    and "group_sum s' g = group_sum s g + round2 P * rat_of_nat (length (members_of s g))"
proof -
  note eff = log_failure_effect [OF ok pen]
  from nm have none: "membership s g u = None" by (simp add: is_member_def)
  have others: "other_members s g u = map user_id (members_of s g)"
    using non_member_rows(1) [OF nm] by (simp add: other_members_def)
  from log_failure_rows [OF ok pen] show "\<exists>news. transactions s' = transactions s @ news
       \<and> map to_user_id news = map user_id (members_of s g)
       \<and> (\<forall>x \<in> set news. tx_group_id x = g \<and> from_user_id x = u \<and> amount x = round2 P
              \<and> status x = pending)"
    unfolding others by blast
  show "balance_of s' g v = map_option (\<lambda>b. b + round2 P) (balance_of s g v)"
  proof (cases "v = u")
    case True
    with eff(1) none show ?thesis by (simp add: balance_of_def)
  next
    case False
    then show ?thesis by (rule eff(2))
  qed
  show "failures_of s' g' v = failures_of s g' v"
  proof (cases "v \<noteq> u \<or> g' \<noteq> g")
    case True
    then show ?thesis by (rule eff(5))
  next
    case False
    with eff(4) none show ?thesis by (simp add: failures_of_def)
  qed
  from ok obtain p v_penalty txs k v_total_debt where
    p: "select_penalty s g = Some p" and dec: "dec10_2 p = Inr v_penalty"
    and s': "s' = s\<lparr>transactions := txs,
            group_members := map (credit_others g u v_penalty)
              (map (debit_member g u v_total_debt) (map (bump_failure_count g u) (group_members s)))\<rparr>"
    by (rule log_failure_Inr)
  from p pen dec have vp: "v_penalty = round2 P" by (simp add: dec10_2_Inr)
  show "group_sum s' g = group_sum s g + round2 P * rat_of_nat (length (members_of s g))"
    by (simp add: s' group_sum_def sum_after_log_failure non_member_rows [OF nm] vp
          members_of_def [of "s\<lparr>transactions := txs, group_members := _\<rparr>"] members_of_def [of s, symmetric]
        del: map_map)
qed

text \<open>
  Claim C6: a call of \<^verbatim>\<open>logFailure\<close> by a user who is no current member of the group
  fails with an authorization error and changes no state: no transaction is created and no
  balance or failure count changes. \<^verbatim>\<open>log_failure(UUID, TEXT, TEXT)\<close> rejects a caller
  without a session and an unknown group, but never looks the caller up in
  \<^verbatim>\<open>group_members\<close>, as \<^verbatim>\<open>log_goal_completion\<close> does for the group of the goal and
  as the insert policy on \<^verbatim>\<open>transactions\<close> of \<^verbatim>\<open>supabase/schema.sql\<close> does. User 7,
  who has a profile and a session and is a member of no group, logs a failure in the group
  of three with penalty 2.00: the call returns success, three pending transactions from
  user 7 are inserted, each member is credited 2.00, and the balances of the group sum to
  6.00, not 0.
\<close>

theorem log_failure_by_non_member:
  "is_member ex_trio 1 7 = False
   \<and> 7 \<in> set (profiles ex_trio)
   \<and> log_failure ex_trio (Some 7) 1 None None =
       Inr (ex_trio_intruded, \<lparr>success = True, transactions_created = 3, total_debt = Some 6\<rparr>)
   \<and> balance_of ex_trio 1 2 = Some 0
   \<and> balance_of ex_trio_intruded 1 2 = Some 2
   \<and> group_sum ex_trio 1 = 0
   \<and> group_sum ex_trio_intruded 1 = 6"
  by (simp add: log_failure_def ex_defs ledger_defs)

section \<open>Settling a transaction that does not exist\<close>

text \<open>
  Claim C7: \<^verbatim>\<open>settle_debt\<close> on an identifier that no transaction has fails with a
  not-found error, reports no success and changes no state. \<^verbatim>\<open>settle_debt\<close> of
  \<^verbatim>\<open>full_setup.sql\<close> leaves the state as it was, but returns \<^verbatim>\<open>success = true\<close>
  and no error, here for the identifier 7 in the group of three, whose transactions are 1
  and 2; lemma \<open>settle_debt_not_found\<close> has it for every state. The version of
  \<^verbatim>\<open>supabase/schema.sql\<close> raises \<^verbatim>\<open>Transaction not found\<close> there.
\<close>

theorem settle_debt_unknown_transaction:
  "select_tx ex_trio_failed 7 = None
   \<and> settle_debt ex_trio_failed 9 7 =
       (ex_trio_failed, \<lparr>settle_success = True, settle_error = None\<rparr>)"
  by (simp add: settle_debt_def ex_defs ledger_defs)

section \<open>Properties of the goal status\<close>






subsection \<open>After a completion\<close>




subsection \<open>Without a completion\<close>




end
